theory Spec2Isabelle
  imports Main "HOL-Library.AList"
begin

section \<open>Data model\<close>

text \<open>
  The interfaces of \<^verbatim>\<open>types/index.ts\<close> that the utility mapper builds and reads.
  JavaScript strings are modelled as \<^typ>\<open>string\<close>: one \<^typ>\<open>char\<close> per UTF-16 code
  unit, for code units below 256. The field names \<^verbatim>\<open>class\<close>, \<^verbatim>\<open>id\<close>,
  \<^verbatim>\<open>values\<close>, \<^verbatim>\<open>prop\<close> and \<^verbatim>\<open>value\<close> carry a prime, the plain names
  being reserved words here; the \<^verbatim>\<open>value\<close> of a \<^verbatim>\<open>UtilityValue\<close> is \<open>uvalue\<close>.
\<close>

record UtilityValue =
  class' :: string
  uvalue :: string
  isDefault :: bool

record UtilityCategory =
  cat_id :: string
  cat_name :: string
  cat_description :: string
  cat_utilities :: "string list"

record UtilityModifier =
  mod_type :: string
  mod_prefix :: string
  mod_description :: string

record Example =
  ex_title :: string
  ex_code :: string
  ex_description :: string

record TailwindUtility =
  id' :: string
  name :: string
  category :: UtilityCategory
  cssProperty :: string
  values' :: "UtilityValue list"
  modifiers :: "UtilityModifier list"
  examples :: "Example list"
  documentation :: string

record ColorInfo =
  color_name :: string
  shades :: "(string \<times> string) list"
  usage :: "string list"

text \<open>A declaration as the parser hands it to the callback of \<^verbatim>\<open>walkDecls\<close>.\<close>

record Declaration =
  prop' :: string
  value' :: string

text \<open>The object literal that \<^verbatim>\<open>convertCSSToTailwind\<close> returns; an optional key that
  is \<^verbatim>\<open>undefined\<close> is \<^const>\<open>None\<close>.\<close>

record ConversionResult =
  tailwindClasses :: string
  unsupportedStyles :: "string list option"
  suggestions :: "string list option"

datatype OutputMode = Inline | Classes | Component

text \<open>\<^verbatim>\<open>ServiceError(message, service, operation, originalError)\<close>.\<close>

datatype 'e ServiceError = ServiceError string string string 'e

text \<open>
  The three private maps of \<^verbatim>\<open>UtilityMapperService\<close>. A JavaScript \<^verbatim>\<open>Map\<close> is an
  association list in insertion order: \<^verbatim>\<open>get\<close> is \<^const>\<open>map_of\<close>, and \<^verbatim>\<open>set\<close> is
  \<^const>\<open>AList.update\<close>, which overwrites an existing key in place and appends a new one.
\<close>

record MapperState =
  utilityMap :: "(string \<times> TailwindUtility) list"
  cssPropertyMap :: "(string \<times> string list) list"
  colorMap :: "(string \<times> ColorInfo) list"

definition fresh :: MapperState where
  "fresh = \<lparr>utilityMap = [], cssPropertyMap = [], colorMap = []\<rparr>"

section \<open>Building the table\<close>

definition dquote :: char where
  "dquote = CHR 0x22"

definition getDefaultModifiers :: "UtilityModifier list" where
  "getDefaultModifiers =
    [\<lparr>mod_type = ''responsive'', mod_prefix = ''sm:'', mod_description = ''Apply on small screens and up''\<rparr>,
     \<lparr>mod_type = ''responsive'', mod_prefix = ''md:'', mod_description = ''Apply on medium screens and up''\<rparr>,
     \<lparr>mod_type = ''responsive'', mod_prefix = ''lg:'', mod_description = ''Apply on large screens and up''\<rparr>,
     \<lparr>mod_type = ''state'', mod_prefix = ''hover:'', mod_description = ''Apply on hover''\<rparr>,
     \<lparr>mod_type = ''state'', mod_prefix = ''focus:'', mod_description = ''Apply when focused''\<rparr>,
     \<lparr>mod_type = ''dark'', mod_prefix = ''dark:'', mod_description = ''Apply in dark mode''\<rparr>]"

definition mkUtility :: "string \<Rightarrow> string \<Rightarrow> string \<Rightarrow> string \<Rightarrow> TailwindUtility" where
  "mkUtility className cssProp cssValue cat =
    \<lparr>id' = className,
     name = className,
     category = \<lparr>cat_id = cat, cat_name = cat, cat_description = [], cat_utilities = []\<rparr>,
     cssProperty = cssProp,
     values' = [\<lparr>class' = className, uvalue = cssValue, isDefault = False\<rparr>],
     modifiers = getDefaultModifiers,
     examples = [\<lparr>ex_title = ''Using '' @ className,
                  ex_code = ''<div class='' @ [dquote] @ className @ [dquote] @ ''>Content</div>'',
                  ex_description = ''Applies '' @ cssProp @ '': '' @ cssValue\<rparr>],
     documentation = ''Sets '' @ cssProp @ '' to '' @ cssValue\<rparr>"

text \<open>\<^verbatim>\<open>addUtility\<close>: stores the utility under its class name and appends the class name
  to the list of its CSS property (\<^verbatim>\<open>get(cssProperty) || []\<close>).\<close>

definition addUtility :: "string \<Rightarrow> string \<Rightarrow> string \<Rightarrow> string \<Rightarrow> MapperState \<Rightarrow> MapperState" where
  "addUtility className cssProp cssValue cat s =
    (let existingUtilities = (case map_of (cssPropertyMap s) cssProp of None \<Rightarrow> [] | Some us \<Rightarrow> us)
     in s\<lparr>utilityMap := AList.update className (mkUtility className cssProp cssValue cat) (utilityMap s),
          cssPropertyMap := AList.update cssProp (existingUtilities @ [className]) (cssPropertyMap s)\<rparr>)"

text \<open>The calls of \<^verbatim>\<open>loadUtilityMappings\<close>, in the order of the source:
  class name, CSS property, CSS value, category.\<close>

definition utilityMappings :: "(string \<times> string \<times> string \<times> string) list" where
  "utilityMappings =
    [(''m-0'', ''margin'', ''0'', ''spacing''),
     (''m-1'', ''margin'', ''0.25rem'', ''spacing''),
     (''m-2'', ''margin'', ''0.5rem'', ''spacing''),
     (''m-4'', ''margin'', ''1rem'', ''spacing''),
     (''m-8'', ''margin'', ''2rem'', ''spacing''),
     (''p-0'', ''padding'', ''0'', ''spacing''),
     (''p-1'', ''padding'', ''0.25rem'', ''spacing''),
     (''p-2'', ''padding'', ''0.5rem'', ''spacing''),
     (''p-4'', ''padding'', ''1rem'', ''spacing''),
     (''p-8'', ''padding'', ''2rem'', ''spacing''),
     (''w-auto'', ''width'', ''auto'', ''sizing''),
     (''w-full'', ''width'', ''100%'', ''sizing''),
     (''w-1/2'', ''width'', ''50%'', ''sizing''),
     (''w-1/3'', ''width'', ''33.333333%'', ''sizing''),
     (''h-auto'', ''height'', ''auto'', ''sizing''),
     (''h-full'', ''height'', ''100%'', ''sizing''),
     (''h-screen'', ''height'', ''100vh'', ''sizing''),
     (''block'', ''display'', ''block'', ''layout''),
     (''inline'', ''display'', ''inline'', ''layout''),
     (''flex'', ''display'', ''flex'', ''flexbox''),
     (''grid'', ''display'', ''grid'', ''grid''),
     (''hidden'', ''display'', ''none'', ''layout''),
     (''text-xs'', ''font-size'', ''0.75rem'', ''typography''),
     (''text-sm'', ''font-size'', ''0.875rem'', ''typography''),
     (''text-base'', ''font-size'', ''1rem'', ''typography''),
     (''text-lg'', ''font-size'', ''1.125rem'', ''typography''),
     (''text-xl'', ''font-size'', ''1.25rem'', ''typography'')]"

definition loadUtilityMappings :: "MapperState \<Rightarrow> MapperState" where
  "loadUtilityMappings s = foldl (\<lambda>st (c, p, v, cat). addUtility c p v cat st) s utilityMappings"

definition shadeKeys :: "string list" where
  "shadeKeys = [''50'', ''100'', ''200'', ''300'', ''400'', ''500'', ''600'', ''700'', ''800'', ''900'']"

definition colors :: "(string \<times> (string \<times> string) list) list" where
  "colors =
    [(''slate'', zip shadeKeys
        [''#f8fafc'', ''#f1f5f9'', ''#e2e8f0'', ''#cbd5e1'', ''#94a3b8'',
         ''#64748b'', ''#475569'', ''#334155'', ''#1e293b'', ''#0f172a'']),
     (''blue'', zip shadeKeys
        [''#eff6ff'', ''#dbeafe'', ''#bfdbfe'', ''#93c5fd'', ''#60a5fa'',
         ''#3b82f6'', ''#2563eb'', ''#1d4ed8'', ''#1e40af'', ''#1e3a8a''])]"

definition colorUsage :: "string \<Rightarrow> (string \<times> string) list \<Rightarrow> string list" where
  "colorUsage colorName shs =
    concat (map (\<lambda>shade. [''text-'' @ colorName @ ''-'' @ shade,
                           ''bg-'' @ colorName @ ''-'' @ shade,
                           ''border-'' @ colorName @ ''-'' @ shade]) (map fst shs))"

definition loadColorMappings :: "MapperState \<Rightarrow> MapperState" where
  "loadColorMappings s =
    foldl (\<lambda>st (colorName, shs).
             st\<lparr>colorMap := AList.update colorName
                   \<lparr>color_name = colorName, shades = shs, usage = colorUsage colorName shs\<rparr>
                   (colorMap st)\<rparr>) s colors"

definition initialize :: "MapperState \<Rightarrow> MapperState" where
  "initialize s = loadColorMappings (loadUtilityMappings s)"

definition cleanup :: "MapperState \<Rightarrow> MapperState" where
  "cleanup s = \<lparr>utilityMap = [], cssPropertyMap = [], colorMap = []\<rparr>"

section \<open>Resolving one declaration\<close>

text \<open>\<^verbatim>\<open>findBestUtilityMatch\<close>: the inner loop over \<^verbatim>\<open>utility.values\<close> and the outer
  loop over the class names listed for the property; the first value that is strictly
  equal to the CSS value returns its class.\<close>

fun findInValues :: "UtilityValue list \<Rightarrow> string \<Rightarrow> string option" where
  "findInValues [] cssValue = None"
| "findInValues (v # vs) cssValue =
     (if uvalue v = cssValue then Some (class' v) else findInValues vs cssValue)"

fun findInUtilities :: "MapperState \<Rightarrow> string list \<Rightarrow> string \<Rightarrow> string option" where
  "findInUtilities s [] cssValue = None"
| "findInUtilities s (utilityId # rest) cssValue =
     (case map_of (utilityMap s) utilityId of
        None \<Rightarrow> findInUtilities s rest cssValue
      | Some utility \<Rightarrow>
          (case findInValues (values' utility) cssValue of
             Some c \<Rightarrow> Some c
           | None \<Rightarrow> findInUtilities s rest cssValue))"

definition findBestUtilityMatch :: "MapperState \<Rightarrow> string \<Rightarrow> string \<Rightarrow> string option" where
  "findBestUtilityMatch s cssProp cssValue =
    findInUtilities s (case map_of (cssPropertyMap s) cssProp of None \<Rightarrow> [] | Some us \<Rightarrow> us) cssValue"

text \<open>The class \<^verbatim>\<open>\s\<close> of a regular expression, on code units below 256: tab, line
  feed, vertical tab, form feed, carriage return, space and no-break space.\<close>

definition isWhitespace :: "char \<Rightarrow> bool" where
  "isWhitespace c = (of_char c \<in> {9, 10, 11, 12, 13, 32, 160 :: nat})"

text \<open>\<^verbatim>\<open>cssValue.replace(/\s+/g, '_')\<close>: scanning from the left, a whitespace character
  starts a match that takes all the whitespace that follows it, and the match is replaced
  by one underscore.\<close>

function cleanValue :: "string \<Rightarrow> string" where
  "cleanValue [] = []"
| "cleanValue (c # cs) =
     (if isWhitespace c then CHR ''_'' # cleanValue (dropWhile isWhitespace cs)
      else c # cleanValue cs)"
  by pat_completeness auto
termination
  by (relation "measure length") (auto simp: le_imp_less_Suc length_dropWhile_le)

text \<open>The object literal \<^verbatim>\<open>propertyAbbreviations\<close> of \<^verbatim>\<open>createArbitraryUtility\<close>.\<close>

definition propertyAbbreviations :: "(string \<times> string) list" where
  "propertyAbbreviations =
    [(''margin'', ''m''),
     (''padding'', ''p''),
     (''width'', ''w''),
     (''height'', ''h''),
     (''top'', ''top''),
     (''right'', ''right''),
     (''bottom'', ''bottom''),
     (''left'', ''left''),
     (''font-size'', ''text''),
     (''line-height'', ''leading''),
     (''color'', ''text''),
     (''background-color'', ''bg''),
     (''border-color'', ''border'')]"

text \<open>
  \<^verbatim>\<open>propertyAbbreviations[cssProperty]\<close> reads a plain object, so a key that the literal
  does not have is looked up on \<^verbatim>\<open>Object.prototype\<close>. Its members are functions, and
  \<^verbatim>\<open>__proto__\<close> is the prototype object itself: all of them are truthy, and the template
  literal prints them as Node does.
\<close>

definition nativeFunction :: "string \<Rightarrow> string" where
  "nativeFunction f = ''function '' @ f @ ''() { [native code] }''"

definition objectPrototypeMembers :: "(string \<times> string) list" where
  "objectPrototypeMembers =
    [(''constructor'', nativeFunction ''Object''),
     (''__defineGetter__'', nativeFunction ''__defineGetter__''),
     (''__defineSetter__'', nativeFunction ''__defineSetter__''),
     (''hasOwnProperty'', nativeFunction ''hasOwnProperty''),
     (''__lookupGetter__'', nativeFunction ''__lookupGetter__''),
     (''__lookupSetter__'', nativeFunction ''__lookupSetter__''),
     (''isPrototypeOf'', nativeFunction ''isPrototypeOf''),
     (''propertyIsEnumerable'', nativeFunction ''propertyIsEnumerable''),
     (''toString'', nativeFunction ''toString''),
     (''valueOf'', nativeFunction ''valueOf''),
     (''__proto__'', ''[object Object]''),
     (''toLocaleString'', nativeFunction ''toLocaleString'')]"

definition abbreviationOf :: "string \<Rightarrow> string option" where
  "abbreviationOf cssProp =
    (case map_of propertyAbbreviations cssProp of
       Some a \<Rightarrow> Some a
     | None \<Rightarrow> map_of objectPrototypeMembers cssProp)"

text \<open>\<^verbatim>\<open>createArbitraryUtility\<close>; \<^verbatim>\<open>if (abbreviation)\<close> holds for a string that is
  not empty.\<close>

definition createArbitraryUtility :: "string \<Rightarrow> string \<Rightarrow> string option" where
  "createArbitraryUtility cssProp cssValue =
    (case abbreviationOf cssProp of
       None \<Rightarrow> None
     | Some abbreviation \<Rightarrow>
         (if abbreviation \<noteq> []
          then Some (abbreviation @ ''-['' @ cleanValue cssValue @ '']'')
          else None))"

definition generateArbitraryUtility :: "string \<Rightarrow> string \<Rightarrow> string option" where
  "generateArbitraryUtility cssProp cssValue = createArbitraryUtility cssProp cssValue"

section \<open>The conversion\<close>

text \<open>The three local arrays of \<^verbatim>\<open>convertCSSToTailwind\<close>; \<^verbatim>\<open>push\<close> appends.\<close>

record Buckets =
  matchedClasses :: "string list"
  unsupported :: "string list"
  suggested :: "string list"

definition noBuckets :: Buckets where
  "noBuckets = \<lparr>matchedClasses = [], unsupported = [], suggested = []\<rparr>"

text \<open>A string or \<^verbatim>\<open>null\<close> in the condition of an \<^verbatim>\<open>if\<close>: \<^verbatim>\<open>null\<close> and the
  empty string are falsy.\<close>

fun truthy :: "string option \<Rightarrow> bool" where
  "truthy None = False"
| "truthy (Some str) = (str \<noteq> [])"

text \<open>The callback of \<^verbatim>\<open>root.walkDecls\<close>.\<close>

definition onDecl :: "MapperState \<Rightarrow> Buckets \<Rightarrow> Declaration \<Rightarrow> Buckets" where
  "onDecl s b decl =
    (let cssProp = prop' decl; cssValue = value' decl;
         verbatim = cssProp @ '': '' @ cssValue
     in case map_of (cssPropertyMap s) cssProp of
          None \<Rightarrow> b\<lparr>unsupported := unsupported b @ [verbatim]\<rparr>
        | Some utilities \<Rightarrow>
            if utilities = [] then b\<lparr>unsupported := unsupported b @ [verbatim]\<rparr>
            else
              (let matchingUtility = findBestUtilityMatch s cssProp cssValue
               in if truthy matchingUtility
                  then b\<lparr>matchedClasses := matchedClasses b @ [the matchingUtility]\<rparr>
                  else
                    (let arbitraryUtility = createArbitraryUtility cssProp cssValue
                     in if truthy arbitraryUtility
                        then b\<lparr>matchedClasses := matchedClasses b @ [the arbitraryUtility],
                               suggested := suggested b @
                                 [''Consider using '' @ the arbitraryUtility @ '' for '' @ verbatim]\<rparr>
                        else b\<lparr>unsupported := unsupported b @ [verbatim]\<rparr>)))"

definition walkDecls :: "MapperState \<Rightarrow> Declaration list \<Rightarrow> Buckets" where
  "walkDecls s decls = foldl (onDecl s) noBuckets decls"

text \<open>\<^verbatim>\<open>Array.prototype.join\<close>.\<close>

fun join :: "string \<Rightarrow> string list \<Rightarrow> string" where
  "join sep [] = []"
| "join sep [x] = x"
| "join sep (x # y # zs) = x @ sep @ join sep (y # zs)"

definition assemble :: "Buckets \<Rightarrow> ConversionResult" where
  "assemble b =
    \<lparr>tailwindClasses = join '' '' (matchedClasses b),
     unsupportedStyles = (if length (unsupported b) > 0 then Some (unsupported b) else None),
     suggestions = (if length (suggested b) > 0 then Some (suggested b) else None)\<rparr>"

text \<open>
  \<^verbatim>\<open>convertCSSToTailwind(css, mode)\<close>. The CSS parser is a library outside the
  repository, so it is a parameter: \<open>parse css\<close> is \<open>Inl err\<close> when
  \<^verbatim>\<open>postcss().process(css, ...)\<close> throws \<open>err\<close>, and otherwise \<open>Inr decls\<close> with the
  declarations in the order in which \<^verbatim>\<open>root.walkDecls\<close> visits them. Whatever the
  \<^verbatim>\<open>try\<close> block throws is wrapped into a \<^verbatim>\<open>ServiceError\<close>. The second component of
  the result is the state of the service after the call.
\<close>

definition convertCSSToTailwind ::
  "(string \<Rightarrow> 'e + Declaration list) \<Rightarrow> MapperState \<Rightarrow> string \<Rightarrow> OutputMode
     \<Rightarrow> ('e ServiceError + ConversionResult) \<times> MapperState" where
  "convertCSSToTailwind parse s css mode =
    (case parse css of
       Inl err \<Rightarrow>
         (Inl (ServiceError ''Failed to convert CSS to TailwindCSS'' ''UtilityMapperService''
                 ''convertCSSToTailwind'' err), s)
     | Inr decls \<Rightarrow> (Inr (assemble (walkDecls s decls)), s))"

text \<open>A sequence of conversion calls on one service, each call starting in the state
  that the call before it left.\<close>

fun conversionCalls ::
  "(string \<Rightarrow> 'e + Declaration list) \<Rightarrow> MapperState \<Rightarrow> (string \<times> OutputMode) list
     \<Rightarrow> ('e ServiceError + ConversionResult) list \<times> MapperState" where
  "conversionCalls parse s [] = ([], s)"
| "conversionCalls parse s ((css, mode) # rest) =
     (case convertCSSToTailwind parse s css mode of
        (r, s') \<Rightarrow> (case conversionCalls parse s' rest of (rs, s'') \<Rightarrow> (r # rs, s'')))"

section \<open>Notions of the specification\<close>

text \<open>The table as the conversion finds it: a service that was created and initialized.\<close>

definition initialized :: MapperState where
  "initialized = initialize fresh"

text \<open>The entries of a property, in table order: the \<^verbatim>\<open>values\<close> of the utilities that
  the property map lists for it.\<close>

definition propertyEntries :: "MapperState \<Rightarrow> string \<Rightarrow> UtilityValue list" where
  "propertyEntries s cssProp =
    concat (map (\<lambda>utilityId. case map_of (utilityMap s) utilityId of
                                None \<Rightarrow> []
                              | Some utility \<Rightarrow> values' utility)
                (case map_of (cssPropertyMap s) cssProp of None \<Rightarrow> [] | Some us \<Rightarrow> us))"

text \<open>What \<^verbatim>\<open>addUtility\<close> does to the property map, and the entry that it stores for a
  row of the table.\<close>

definition appendClass ::
  "string \<Rightarrow> string \<Rightarrow> (string \<times> string list) list \<Rightarrow> (string \<times> string list) list" where
  "appendClass p c m = AList.update p ((case map_of m p of None \<Rightarrow> [] | Some us \<Rightarrow> us) @ [c]) m"

definition tableRow :: "string \<times> string \<times> string \<times> string \<Rightarrow> UtilityValue" where
  "tableRow r = (case r of (c, p, v, cat) \<Rightarrow> \<lparr>class' = c, uvalue = v, isDefault = False\<rparr>)"

text \<open>The cleaned value in the words of the specification: the value is cut into its
  maximal runs of whitespace and of other characters, and every run of whitespace is
  replaced by a single underscore.\<close>

fun runs :: "('a \<Rightarrow> bool) \<Rightarrow> 'a list \<Rightarrow> 'a list list" where
  "runs P [] = []"
| "runs P (x # xs) =
     (case runs P xs of
        [] \<Rightarrow> [[x]]
      | [] # rs \<Rightarrow> [x] # rs
      | (y # r) # rs \<Rightarrow> if P y = P x then (x # y # r) # rs else [x] # (y # r) # rs)"

definition cleanedValue_spec :: "string \<Rightarrow> string" where
  "cleanedValue_spec v =
    concat (map (\<lambda>r. case r of [] \<Rightarrow> [] | c # _ \<Rightarrow> if isWhitespace c then ''_'' else r)
                (runs isWhitespace v))"

text \<open>
  A stand-in for the external parser, to run the conversion on concrete texts: the
  declarations that the parser reports for a few stylesheets, the empty text and a text of
  whitespace among them, and a syntax error for a text that is no stylesheet. On every
  other text it answers with that error as well; it is used at the listed texts only.
\<close>

definition blankCss :: string where
  "blankCss = [CHR '' '', CHR '' '', CHR '' '', CHR 0x0A, CHR 0x09, CHR '' '']"

definition sampleParse :: "string \<Rightarrow> string + Declaration list" where
  "sampleParse css =
    (if css = [] \<or> css = blankCss then Inr []
     else if css = ''.test { margin: 1rem; }''
       then Inr [\<lparr>prop' = ''margin'', value' = ''1rem''\<rparr>]
     else if css = ''.test { display: flex; padding: 1rem; }''
       then Inr [\<lparr>prop' = ''display'', value' = ''flex''\<rparr>,
                 \<lparr>prop' = ''padding'', value' = ''1rem''\<rparr>]
     else if css = ''.test { filter: blur(5px); margin: 1.75rem; }''
       then Inr [\<lparr>prop' = ''filter'', value' = ''blur(5px)''\<rparr>,
                 \<lparr>prop' = ''margin'', value' = ''1.75rem''\<rparr>]
     else Inl ''CssSyntaxError'')"

section \<open>The table after initialization\<close>

lemma cssPropertyMap_addUtility:
  "cssPropertyMap (addUtility c p v cat s) = appendClass p c (cssPropertyMap s)"
  by (simp add: addUtility_def appendClass_def)

lemma utilityMap_addUtility:
  "utilityMap (addUtility c p v cat s) = AList.update c (mkUtility c p v cat) (utilityMap s)"
  by (simp add: addUtility_def)

lemma loadColorMappings_frame:
  "cssPropertyMap (loadColorMappings s) = cssPropertyMap s"
  "utilityMap (loadColorMappings s) = utilityMap s"
  by (simp_all add: loadColorMappings_def colors_def)

lemma cssPropertyMap_foldl_addUtility:
  "cssPropertyMap (foldl (\<lambda>st (c, p, v, cat). addUtility c p v cat st) s xs) =
   foldl (\<lambda>m (c, p, v, cat). appendClass p c m) (cssPropertyMap s) xs"
  by (induction xs arbitrary: s) (simp_all add: cssPropertyMap_addUtility split: prod.split)

lemma utilityMap_foldl_addUtility:
  "utilityMap (foldl (\<lambda>st (c, p, v, cat). addUtility c p v cat st) s xs) =
   foldl (\<lambda>m (c, p, v, cat). AList.update c (mkUtility c p v cat) m) (utilityMap s) xs"
  by (induction xs arbitrary: s) (simp_all add: utilityMap_addUtility split: prod.split)

lemma cssPropertyMap_initialized:
  "cssPropertyMap initialized =
    [(''margin'', [''m-0'', ''m-1'', ''m-2'', ''m-4'', ''m-8'']),
     (''padding'', [''p-0'', ''p-1'', ''p-2'', ''p-4'', ''p-8'']),
     (''width'', [''w-auto'', ''w-full'', ''w-1/2'', ''w-1/3'']),
     (''height'', [''h-auto'', ''h-full'', ''h-screen'']),
     (''display'', [''block'', ''inline'', ''flex'', ''grid'', ''hidden'']),
     (''font-size'', [''text-xs'', ''text-sm'', ''text-base'', ''text-lg'', ''text-xl''])]"
proof -
  have "cssPropertyMap initialized =
        foldl (\<lambda>m (c, p, v, cat). appendClass p c m) [] utilityMappings"
    by (simp add: initialized_def initialize_def loadColorMappings_frame loadUtilityMappings_def
        cssPropertyMap_foldl_addUtility fresh_def)
  also have "\<dots> =
    [(''margin'', [''m-0'', ''m-1'', ''m-2'', ''m-4'', ''m-8'']),
     (''padding'', [''p-0'', ''p-1'', ''p-2'', ''p-4'', ''p-8'']),
     (''width'', [''w-auto'', ''w-full'', ''w-1/2'', ''w-1/3'']),
     (''height'', [''h-auto'', ''h-full'', ''h-screen'']),
     (''display'', [''block'', ''inline'', ''flex'', ''grid'', ''hidden'']),
     (''font-size'', [''text-xs'', ''text-sm'', ''text-base'', ''text-lg'', ''text-xl''])]"
    by (simp add: utilityMappings_def appendClass_def)
  finally show ?thesis .
qed

lemma utilityMap_initialized:
  "utilityMap initialized = map (\<lambda>(c, p, v, cat). (c, mkUtility c p v cat)) utilityMappings"
proof -
  have "utilityMap initialized =
        foldl (\<lambda>m (c, p, v, cat). AList.update c (mkUtility c p v cat) m) [] utilityMappings"
    by (simp add: initialized_def initialize_def loadColorMappings_frame loadUtilityMappings_def
        utilityMap_foldl_addUtility fresh_def)
  also have "\<dots> = map (\<lambda>(c, p, v, cat). (c, mkUtility c p v cat)) utilityMappings"
    by (simp add: utilityMappings_def)
  finally show ?thesis .
qed

lemma values_mkUtility: "values' (mkUtility c p v cat) = [tableRow (c, p, v, cat)]"
  by (simp add: mkUtility_def tableRow_def)

lemma propertyEntries_initialized:
  "propertyEntries initialized p = map tableRow (filter (\<lambda>(c, q, v, cat). q = p) utilityMappings)"
  apply (simp add: propertyEntries_def cssPropertyMap_initialized utilityMap_initialized)
  apply (simp add: utilityMappings_def values_mkUtility)
  done

section \<open>Every declaration lands in one bucket\<close>

lemma onDecl_count:
  "length (matchedClasses (onDecl s b d)) + length (unsupported (onDecl s b d)) =
   Suc (length (matchedClasses b) + length (unsupported b))"
  by (simp add: onDecl_def Let_def split: option.split)

lemma foldl_onDecl_count:
  "length (matchedClasses (foldl (onDecl s) b ds)) + length (unsupported (foldl (onDecl s) b ds)) =
   length (matchedClasses b) + length (unsupported b) + length ds"
  by (induction ds arbitrary: b) (simp_all add: onDecl_count)

lemma onDecl_one_bucket:
  "(length (matchedClasses (onDecl s b d)) = Suc (length (matchedClasses b)) \<and>
      unsupported (onDecl s b d) = unsupported b) \<or>
   (matchedClasses (onDecl s b d) = matchedClasses b \<and>
      length (unsupported (onDecl s b d)) = Suc (length (unsupported b)))"
  by (simp add: onDecl_def Let_def split: option.split)

text \<open>What one declaration adds does not depend on what the buckets hold.\<close>

lemma onDecl_shift:
  "onDecl s b d =
    \<lparr>matchedClasses = matchedClasses b @ matchedClasses (onDecl s noBuckets d),
     unsupported = unsupported b @ unsupported (onDecl s noBuckets d),
     suggested = suggested b @ suggested (onDecl s noBuckets d)\<rparr>"
  by (simp add: onDecl_def noBuckets_def Let_def split: option.split)

lemma onDecl_shift_fields:
  "matchedClasses (onDecl s b d) = matchedClasses b @ matchedClasses (onDecl s noBuckets d)"
  "unsupported (onDecl s b d) = unsupported b @ unsupported (onDecl s noBuckets d)"
  "suggested (onDecl s b d) = suggested b @ suggested (onDecl s noBuckets d)"
  by (subst onDecl_shift, simp)+

lemma foldl_onDecl_shift:
  "foldl (onDecl s) b ds =
    \<lparr>matchedClasses = matchedClasses b @ matchedClasses (foldl (onDecl s) noBuckets ds),
     unsupported = unsupported b @ unsupported (foldl (onDecl s) noBuckets ds),
     suggested = suggested b @ suggested (foldl (onDecl s) noBuckets ds)\<rparr>"
proof (induction ds arbitrary: b)
  case Nil
  show ?case by (simp add: noBuckets_def)
next
  case (Cons d ds)
  let ?F = "foldl (onDecl s) noBuckets ds"
  have A: "foldl (onDecl s) (onDecl s b d) ds =
     \<lparr>matchedClasses = matchedClasses (onDecl s b d) @ matchedClasses ?F,
      unsupported = unsupported (onDecl s b d) @ unsupported ?F,
      suggested = suggested (onDecl s b d) @ suggested ?F\<rparr>"
    by (rule Cons.IH)
  have B: "foldl (onDecl s) (onDecl s noBuckets d) ds =
     \<lparr>matchedClasses = matchedClasses (onDecl s noBuckets d) @ matchedClasses ?F,
      unsupported = unsupported (onDecl s noBuckets d) @ unsupported ?F,
      suggested = suggested (onDecl s noBuckets d) @ suggested ?F\<rparr>"
    by (rule Cons.IH)
  show ?case
    by (simp add: A B onDecl_shift_fields [of s b d])
qed

lemma walkDecls_append:
  "walkDecls s (xs @ ys) =
    \<lparr>matchedClasses = matchedClasses (walkDecls s xs) @ matchedClasses (walkDecls s ys),
     unsupported = unsupported (walkDecls s xs) @ unsupported (walkDecls s ys),
     suggested = suggested (walkDecls s xs) @ suggested (walkDecls s ys)\<rparr>"
  unfolding walkDecls_def foldl_append
  by (rule foldl_onDecl_shift)

lemma walkDecls_Nil: "walkDecls s [] = noBuckets"
  by (simp add: walkDecls_def)

lemma walkDecls_Cons:
  "walkDecls s (d # ds) =
    \<lparr>matchedClasses = matchedClasses (walkDecls s [d]) @ matchedClasses (walkDecls s ds),
     unsupported = unsupported (walkDecls s [d]) @ unsupported (walkDecls s ds),
     suggested = suggested (walkDecls s [d]) @ suggested (walkDecls s ds)\<rparr>"
  using walkDecls_append [of s "[d]" ds] by simp

lemma matchedClasses_walkDecls:
  "matchedClasses (walkDecls s ds) = concat (map (\<lambda>d. matchedClasses (walkDecls s [d])) ds)"
  by (induction ds) (simp add: walkDecls_Nil noBuckets_def, subst walkDecls_Cons, simp)

lemma convert_state: "snd (convertCSSToTailwind parse s css mode) = s"
  by (simp add: convertCSSToTailwind_def split: sum.split)

section \<open>Resolution against the table\<close>

lemma find_append_case:
  "find P (xs @ ys) = (case find P xs of None \<Rightarrow> find P ys | Some x \<Rightarrow> Some x)"
  by (induction xs) simp_all

lemma findInValues_find:
  "findInValues vs v = map_option class' (find (\<lambda>e. uvalue e = v) vs)"
  by (induction vs) simp_all

lemma findInUtilities_find:
  "findInUtilities s ids v =
   map_option class' (find (\<lambda>e. uvalue e = v)
     (concat (map (\<lambda>utilityId. case map_of (utilityMap s) utilityId of
                                  None \<Rightarrow> [] | Some utility \<Rightarrow> values' utility) ids)))"
  by (induction ids)
     (simp_all add: find_append_case findInValues_find split: option.split)

lemma findBestUtilityMatch_find:
  "findBestUtilityMatch s p v = map_option class' (find (\<lambda>e. uvalue e = v) (propertyEntries s p))"
  by (simp add: findBestUtilityMatch_def propertyEntries_def findInUtilities_find)

lemma propertyEntries_listed:
  assumes "propertyEntries s p \<noteq> []"
  shows "\<exists>us. map_of (cssPropertyMap s) p = Some us \<and> us \<noteq> []"
proof (cases "map_of (cssPropertyMap s) p")
  case None
  with assms show ?thesis by (simp add: propertyEntries_def)
next
  case (Some us)
  with assms have "us \<noteq> []" by (auto simp: propertyEntries_def)
  with Some show ?thesis by simp
qed

lemma onDecl_unlisted:
  assumes "map_of (cssPropertyMap s) p = None \<or> map_of (cssPropertyMap s) p = Some []"
  shows "onDecl s b \<lparr>prop' = p, value' = v\<rparr> = b\<lparr>unsupported := unsupported b @ [p @ '': '' @ v]\<rparr>"
  using assms by (auto simp: onDecl_def)

lemma onDecl_exact:
  assumes "map_of (cssPropertyMap s) p = Some us" and "us \<noteq> []"
    and "findBestUtilityMatch s p v = Some c" and "c \<noteq> []"
  shows "onDecl s b \<lparr>prop' = p, value' = v\<rparr> = b\<lparr>matchedClasses := matchedClasses b @ [c]\<rparr>"
  using assms by (simp add: onDecl_def)

lemma onDecl_fallback:
  assumes "map_of (cssPropertyMap s) p = Some us" and "us \<noteq> []"
    and "\<not> truthy (findBestUtilityMatch s p v)"
  shows "onDecl s b \<lparr>prop' = p, value' = v\<rparr> =
    (case createArbitraryUtility p v of
       None \<Rightarrow> b\<lparr>unsupported := unsupported b @ [p @ '': '' @ v]\<rparr>
     | Some a \<Rightarrow> b\<lparr>matchedClasses := matchedClasses b @ [a],
                    suggested := suggested b @ [''Consider using '' @ a @ '' for '' @ p @ '': '' @ v]\<rparr>)"
  using assms by (simp add: onDecl_def createArbitraryUtility_def split: option.split)

lemma abbreviation_nonempty:
  assumes "map_of propertyAbbreviations p = Some a"
  shows "a \<noteq> []"
  using map_of_SomeD [OF assms] by (auto simp: propertyAbbreviations_def)

lemma createArbitraryUtility_own:
  assumes "map_of propertyAbbreviations p = Some a"
  shows "createArbitraryUtility p v = Some (a @ ''-['' @ cleanValue v @ '']'')"
  using assms abbreviation_nonempty [OF assms]
  by (simp add: createArbitraryUtility_def abbreviationOf_def)

lemma createArbitraryUtility_bracket:
  assumes "createArbitraryUtility p v = Some c"
  shows "CHR ''['' \<in> set c"
  using assms by (auto simp: createArbitraryUtility_def split: option.splits if_splits)

lemma tableRow_class:
  assumes "r \<in> set utilityMappings"
  shows "class' (tableRow r) \<noteq> [] \<and> CHR ''['' \<notin> set (class' (tableRow r)) \<and> uvalue (tableRow r) \<noteq> []"
  using assms by (auto simp: utilityMappings_def tableRow_def)

lemma initialized_entry:
  assumes "e \<in> set (propertyEntries initialized p)"
  shows "class' e \<noteq> [] \<and> CHR ''['' \<notin> set (class' e) \<and> uvalue e \<noteq> []"
proof -
  from assms obtain r where "r \<in> set utilityMappings" and "e = tableRow r"
    by (auto simp: propertyEntries_initialized)
  then show ?thesis using tableRow_class by blast
qed

section \<open>The cleaned value\<close>

lemma runs_Cons_shape: "\<exists>r rs. runs P (x # xs) = (x # r) # rs"
  by (simp split: list.split)

lemma runs_concat: "concat (runs P xs) = xs"
  by (induction xs) (auto split: list.splits)

lemma runs_homogeneous:
  assumes "r \<in> set (runs P xs)" and "a \<in> set r" and "b \<in> set r"
  shows "P a = P b"
  using assms
proof (induction xs arbitrary: r a b)
  case Nil
  then show ?case by simp
next
  case (Cons x xs)
  note IH = Cons.IH
  consider (single) "runs P xs = []"
    | (hole) qs where "runs P xs = [] # qs"
    | (joined) y q qs where "runs P xs = (y # q) # qs" and "P y = P x"
    | (apart) y q qs where "runs P xs = (y # q) # qs" and "P y \<noteq> P x"
    by (metis list.exhaust)
  then show ?case
  proof cases
    case single
    with Cons.prems show ?thesis by simp
  next
    case hole
    with Cons.prems have "r = [x] \<or> r \<in> set (runs P xs)" by auto
    with Cons.prems IH show ?thesis by auto
  next
    case joined
    have same: "P c = P x" if "c \<in> set (x # y # q)" for c
    proof (cases "c = x")
      case True
      then show ?thesis by simp
    next
      case False
      with that have "c \<in> set (y # q)" by simp
      moreover have "y # q \<in> set (runs P xs)" using joined by simp
      ultimately have "P c = P y" using IH [of "y # q" c y] by simp
      with joined show ?thesis by simp
    qed
    from joined Cons.prems have "r = x # y # q \<or> r \<in> set (runs P xs)" by auto
    then show ?thesis
    proof
      assume "r = x # y # q"
      with Cons.prems same [of a] same [of b] show ?thesis by simp
    next
      assume "r \<in> set (runs P xs)"
      with Cons.prems IH show ?thesis by blast
    qed
  next
    case apart
    with Cons.prems have "r = [x] \<or> r \<in> set (runs P xs)" by auto
    then show ?thesis
    proof
      assume "r = [x]"
      with Cons.prems show ?thesis by simp
    next
      assume "r \<in> set (runs P xs)"
      with Cons.prems IH show ?thesis by blast
    qed
  qed
qed

lemma runs_maximal: "distinct_adj (map (\<lambda>r. P (hd r)) (runs P xs)) \<and> [] \<notin> set (runs P xs)"
  by (induction xs) (auto split: list.splits)

lemma cleanValue_whitespace:
  assumes "isWhitespace c"
  shows "cleanValue (c # cs) =
    (case cs of [] \<Rightarrow> ''_''
     | c' # _ \<Rightarrow> if isWhitespace c' then cleanValue cs else CHR ''_'' # cleanValue cs)"
  using assms by (cases cs) simp_all

lemma cleanedValue_spec_Cons:
  "cleanedValue_spec (c # cs) =
    (if isWhitespace c
     then (case cs of [] \<Rightarrow> ''_''
           | c' # _ \<Rightarrow> if isWhitespace c' then cleanedValue_spec cs
                        else CHR ''_'' # cleanedValue_spec cs)
     else c # cleanedValue_spec cs)"
proof (cases cs)
  case Nil
  then show ?thesis by (simp add: cleanedValue_spec_def)
next
  case (Cons c' cs')
  obtain r rs where shape: "runs isWhitespace (c' # cs') = (c' # r) # rs"
    using runs_Cons_shape [of isWhitespace c' cs'] by blast
  show ?thesis
    unfolding Cons cleanedValue_spec_def
    by (subst runs.simps(2), simp only: shape) simp
qed

lemma cleanValue_meets_spec: "cleanValue v = cleanedValue_spec v"
proof (induction v)
  case Nil
  show ?case by (simp add: cleanedValue_spec_def)
next
  case (Cons c cs)
  show ?case
  proof (cases "isWhitespace c")
    case True
    then show ?thesis
      using Cons.IH by (simp only: cleanValue_whitespace cleanedValue_spec_Cons if_True)
  next
    case False
    then show ?thesis using Cons.IH by (simp add: cleanedValue_spec_Cons)
  qed
qed

section \<open>Concrete inputs\<close>

lemma unlisted_initialized:
  "list_all (\<lambda>q. map_of (cssPropertyMap initialized) q = None \<and> map_of propertyAbbreviations q \<noteq> None)
     [''color'', ''background-color'', ''border-color'', ''line-height'', ''top'', ''right'', ''bottom'', ''left'']"
  by (simp add: cssPropertyMap_initialized propertyAbbreviations_def)

lemma sample_flex:
  "sampleParse ''.test { display: flex; padding: 1rem; }'' =
     Inr [\<lparr>prop' = ''display'', value' = ''flex''\<rparr>, \<lparr>prop' = ''padding'', value' = ''1rem''\<rparr>]"
  by (simp add: sampleParse_def blankCss_def)

lemma sample_filter:
  "sampleParse ''.test { filter: blur(5px); margin: 1.75rem; }'' =
     Inr ([] @ \<lparr>prop' = ''filter'', value' = ''blur(5px)''\<rparr> # [\<lparr>prop' = ''margin'', value' = ''1.75rem''\<rparr>])"
  by (simp add: sampleParse_def blankCss_def)


lemma sample_invalid: "sampleParse ''{ this is not valid CSS }'' = Inl ''CssSyntaxError''"
  by (simp add: sampleParse_def blankCss_def)


lemma walk_margin:
  "walkDecls initialized [\<lparr>prop' = ''margin'', value' = ''1.75rem''\<rparr>] =
     \<lparr>matchedClasses = [''m-[1.75rem]''], unsupported = [],
      suggested = [''Consider using m-[1.75rem] for margin: 1.75rem'']\<rparr>"
  by (simp add: walkDecls_def noBuckets_def onDecl_def cssPropertyMap_initialized
      findBestUtilityMatch_find propertyEntries_initialized utilityMappings_def tableRow_def
      createArbitraryUtility_def abbreviationOf_def propertyAbbreviations_def isWhitespace_def)

section \<open>The claims\<close>







text \<open>
  C3. For every sequence of parsed declarations, the number of matched classes plus the
  number of unsupported entries is the number of declarations. Each declaration adds one
  entry to exactly one of the two buckets (a class, exact or arbitrary, or an unsupported
  entry), and a declaration that occurs twice adds its entry twice.
\<close>

theorem every_declaration_in_one_bucket:
  "length (matchedClasses (walkDecls s ds)) + length (unsupported (walkDecls s ds)) = length ds \<and>
   ((length (matchedClasses (walkDecls s [d])) = 1 \<and> unsupported (walkDecls s [d]) = []) \<or>
    (matchedClasses (walkDecls s [d]) = [] \<and> length (unsupported (walkDecls s [d])) = 1)) \<and>
   matchedClasses (walkDecls s [d, d]) = matchedClasses (walkDecls s [d]) @ matchedClasses (walkDecls s [d]) \<and>
   unsupported (walkDecls s [d, d]) = unsupported (walkDecls s [d]) @ unsupported (walkDecls s [d])"
proof -
  have count: "length (matchedClasses (walkDecls s ds)) + length (unsupported (walkDecls s ds)) = length ds"
    using foldl_onDecl_count [of s noBuckets ds] by (simp add: walkDecls_def noBuckets_def)
  have one: "(length (matchedClasses (walkDecls s [d])) = 1 \<and> unsupported (walkDecls s [d]) = []) \<or>
    (matchedClasses (walkDecls s [d]) = [] \<and> length (unsupported (walkDecls s [d])) = 1)"
    using onDecl_one_bucket [of s noBuckets d] by (simp add: walkDecls_def noBuckets_def)
  have dup: "walkDecls s [d, d] =
    \<lparr>matchedClasses = matchedClasses (walkDecls s [d]) @ matchedClasses (walkDecls s [d]),
     unsupported = unsupported (walkDecls s [d]) @ unsupported (walkDecls s [d]),
     suggested = suggested (walkDecls s [d]) @ suggested (walkDecls s [d])\<rparr>"
    using walkDecls_append [of s "[d]" "[d]"] by simp
  show ?thesis using count one by (simp add: dup)
qed

text \<open>
  C4. In the initialized table, when the value of a declaration is equal, as a string, to
  the value of an entry of its property, resolution returns the class of the first such
  entry in table order, the declaration adds exactly this class and no suggestion, and the
  class is not the bracketed arbitrary-value form. In particular \<open>margin: 1rem\<close> gives
  \<open>m-4\<close> and not \<open>m-[1rem]\<close>.
\<close>

theorem exact_match_first:
  assumes "find (\<lambda>e. uvalue e = v) (propertyEntries initialized p) = Some e"
  shows "findBestUtilityMatch initialized p v = Some (class' e) \<and>
         onDecl initialized b \<lparr>prop' = p, value' = v\<rparr> =
           b\<lparr>matchedClasses := matchedClasses b @ [class' e]\<rparr> \<and>
         createArbitraryUtility p v \<noteq> Some (class' e)"
proof -
  from assms have mem: "e \<in> set (propertyEntries initialized p)"
    by (auto simp: find_Some_iff in_set_conv_nth)
  then have "propertyEntries initialized p \<noteq> []" by auto
  then obtain us where us: "map_of (cssPropertyMap initialized) p = Some us" "us \<noteq> []"
    using propertyEntries_listed by blast
  have best: "findBestUtilityMatch initialized p v = Some (class' e)"
    using assms by (simp add: findBestUtilityMatch_find)
  have cls: "class' e \<noteq> []" "CHR ''['' \<notin> set (class' e)"
    using initialized_entry [OF mem] by simp_all
  have "createArbitraryUtility p v \<noteq> Some (class' e)"
    using createArbitraryUtility_bracket [of p v "class' e"] cls(2) by blast
  with best onDecl_exact [OF us best cls(1)] show ?thesis by simp
qed

theorem exact_match_first_witness:
  "find (\<lambda>e. uvalue e = ''1rem'') (propertyEntries initialized ''margin'') =
     Some \<lparr>class' = ''m-4'', uvalue = ''1rem'', isDefault = False\<rparr> \<and>
   walkDecls initialized [\<lparr>prop' = ''margin'', value' = ''1rem''\<rparr>] =
     \<lparr>matchedClasses = [''m-4''], unsupported = [], suggested = []\<rparr> \<and>
   createArbitraryUtility ''margin'' ''1rem'' = Some ''m-[1rem]''"
proof -
  have entries: "find (\<lambda>e. uvalue e = ''1rem'') (propertyEntries initialized ''margin'') =
     Some \<lparr>class' = ''m-4'', uvalue = ''1rem'', isDefault = False\<rparr>"
    by (simp add: propertyEntries_initialized utilityMappings_def tableRow_def)
  have arb: "createArbitraryUtility ''margin'' ''1rem'' = Some ''m-[1rem]''"
    by (simp add: createArbitraryUtility_def abbreviationOf_def propertyAbbreviations_def isWhitespace_def)
  show ?thesis
    using exact_match_first [OF entries, of noBuckets] entries arb
    by (simp add: walkDecls_def noBuckets_def)
qed

text \<open>
  C5. When the property of a declaration is listed in the table, has an abbreviation, and
  no entry of the property has the value of the declaration, the declaration adds the
  class \<open>abbreviation-[cleaned value]\<close> and the suggestion
  \<open>Consider using class for property: value\<close>. The cleaned value is the value with every
  maximal run of whitespace replaced by one underscore. For example \<open>margin: 1.75rem\<close>
  gives \<open>m-[1.75rem]\<close>.
\<close>

theorem arbitrary_value_fallback:
  assumes "map_of (cssPropertyMap s) p = Some us" and "us \<noteq> []"
    and "map_of propertyAbbreviations p = Some a"
    and "find (\<lambda>e. uvalue e = v) (propertyEntries s p) = None"
  shows "onDecl s b \<lparr>prop' = p, value' = v\<rparr> =
           b\<lparr>matchedClasses := matchedClasses b @ [a @ ''-['' @ cleanValue v @ '']''],
             suggested := suggested b @
               [''Consider using '' @ (a @ ''-['' @ cleanValue v @ '']'') @ '' for '' @ p @ '': '' @ v]\<rparr> \<and>
         cleanValue v = cleanedValue_spec v"
proof -
  have "findBestUtilityMatch s p v = None"
    using assms(4) by (simp add: findBestUtilityMatch_find)
  then have "\<not> truthy (findBestUtilityMatch s p v)" by simp
  from onDecl_fallback [OF assms(1,2) this, of b] createArbitraryUtility_own [OF assms(3), of v]
  show ?thesis by (simp add: cleanValue_meets_spec)
qed

theorem arbitrary_value_fallback_witness:
  "map_of (cssPropertyMap initialized) ''margin'' = Some [''m-0'', ''m-1'', ''m-2'', ''m-4'', ''m-8''] \<and>
   map_of propertyAbbreviations ''margin'' = Some ''m'' \<and>
   find (\<lambda>e. uvalue e = ''1.75rem'') (propertyEntries initialized ''margin'') = None \<and>
   walkDecls initialized [\<lparr>prop' = ''margin'', value' = ''1.75rem''\<rparr>] =
     \<lparr>matchedClasses = [''m-[1.75rem]''], unsupported = [],
      suggested = [''Consider using m-[1.75rem] for margin: 1.75rem'']\<rparr> \<and>
   cleanValue ''1.75rem'' = ''1.75rem'' \<and>
   cleanedValue_spec ''calc(100%  -  2rem)'' = ''calc(100%_-_2rem)''"
proof -
  have listed: "map_of (cssPropertyMap initialized) ''margin'' = Some [''m-0'', ''m-1'', ''m-2'', ''m-4'', ''m-8'']"
    by (simp add: cssPropertyMap_initialized)
  have ne: "[''m-0'', ''m-1'', ''m-2'', ''m-4'', ''m-8''] \<noteq> ([] :: string list)" by simp
  have abbr: "map_of propertyAbbreviations ''margin'' = Some ''m''"
    by (simp add: propertyAbbreviations_def)
  have nomatch: "find (\<lambda>e. uvalue e = ''1.75rem'') (propertyEntries initialized ''margin'') = None"
    by (simp add: propertyEntries_initialized utilityMappings_def tableRow_def)
  have plain: "cleanValue ''1.75rem'' = ''1.75rem''"
    by (simp add: isWhitespace_def)
  have spaced: "cleanValue ''calc(100%  -  2rem)'' = ''calc(100%_-_2rem)''"
    by (simp add: isWhitespace_def)
  show ?thesis
    using arbitrary_value_fallback [OF listed ne abbr nomatch, of noBuckets]
      arbitrary_value_fallback [OF listed ne abbr nomatch, of noBuckets, THEN conjunct2]
      listed abbr nomatch plain spaced
    by (simp add: walkDecls_def noBuckets_def cleanValue_meets_spec [symmetric])
qed

text \<open>
  C6. The call fails exactly when the parser rejects the text, and the failure is one
  \<open>ServiceError\<close> that carries the error of the parser; for every text that the parser
  accepts the call returns a result. A declaration whose property the table does not
  list is recorded as \<open>property: value\<close> in \<open>unsupportedStyles\<close>, between the
  unsupported entries of the declarations before and after it, and \<open>tailwindClasses\<close> is
  what the other declarations give without it.
\<close>

theorem errors_only_from_parser:
  "((\<exists>e. fst (convertCSSToTailwind parse s css mode) = Inl e) = (\<exists>err. parse css = Inl err)) \<and>
   ((\<exists>r. fst (convertCSSToTailwind parse s css mode) = Inr r) = (\<exists>ds. parse css = Inr ds)) \<and>
   (parse css = Inl err \<longrightarrow>
      fst (convertCSSToTailwind parse s css mode) =
        Inl (ServiceError ''Failed to convert CSS to TailwindCSS'' ''UtilityMapperService''
               ''convertCSSToTailwind'' err)) \<and>
   (parse css = Inr (xs @ d # ys) \<and> map_of (cssPropertyMap s) (prop' d) = None \<longrightarrow>
      (\<exists>r. fst (convertCSSToTailwind parse s css mode) = Inr r \<and>
           unsupportedStyles r =
             Some (unsupported (walkDecls s xs) @ [prop' d @ '': '' @ value' d] @
                   unsupported (walkDecls s ys)) \<and>
           tailwindClasses r = join '' '' (matchedClasses (walkDecls s (xs @ ys)))))"
proof -
  have outcome: "fst (convertCSSToTailwind parse s css mode) =
      (case parse css of
         Inl err \<Rightarrow> Inl (ServiceError ''Failed to convert CSS to TailwindCSS''
                          ''UtilityMapperService'' ''convertCSSToTailwind'' err)
       | Inr ds \<Rightarrow> Inr (assemble (walkDecls s ds)))"
    by (simp add: convertCSSToTailwind_def split: sum.split)
  have unmapped: "walkDecls s [d] =
      \<lparr>matchedClasses = [], unsupported = [prop' d @ '': '' @ value' d], suggested = []\<rparr>"
    if "map_of (cssPropertyMap s) (prop' d) = None"
    using that onDecl_unlisted [of s "prop' d" noBuckets "value' d"]
    by (cases d) (simp add: walkDecls_def noBuckets_def)
  have split_walk: "walkDecls s (xs @ d # ys) =
      \<lparr>matchedClasses = matchedClasses (walkDecls s xs) @ matchedClasses (walkDecls s [d]) @
                          matchedClasses (walkDecls s ys),
       unsupported = unsupported (walkDecls s xs) @ unsupported (walkDecls s [d]) @
                       unsupported (walkDecls s ys),
       suggested = suggested (walkDecls s xs) @ suggested (walkDecls s [d]) @
                     suggested (walkDecls s ys)\<rparr>"
    using walkDecls_append [of s xs "d # ys"] walkDecls_Cons [of s d ys] by simp
  have rest: "matchedClasses (walkDecls s (xs @ ys)) =
      matchedClasses (walkDecls s xs) @ matchedClasses (walkDecls s ys)"
    using walkDecls_append [of s xs ys] by simp
  show ?thesis
    using unmapped
    by (cases "parse css") (auto simp: outcome split_walk rest assemble_def)
qed

theorem errors_only_from_parser_witness:
  "sampleParse ''{ this is not valid CSS }'' = Inl ''CssSyntaxError'' \<and>
   fst (convertCSSToTailwind sampleParse initialized ''{ this is not valid CSS }'' Classes) =
     Inl (ServiceError ''Failed to convert CSS to TailwindCSS'' ''UtilityMapperService''
            ''convertCSSToTailwind'' ''CssSyntaxError'') \<and>
   map_of (cssPropertyMap initialized) ''filter'' = None \<and>
   (\<exists>r. fst (convertCSSToTailwind sampleParse initialized
             ''.test { filter: blur(5px); margin: 1.75rem; }'' Classes) = Inr r \<and>
        unsupportedStyles r = Some [''filter: blur(5px)''] \<and>
        tailwindClasses r = ''m-[1.75rem]'')"
proof -
  have unmapped: "map_of (cssPropertyMap initialized) ''filter'' = None"
    by (simp add: cssPropertyMap_initialized)
  show ?thesis
    using errors_only_from_parser [of sampleParse initialized "''{ this is not valid CSS }''" Classes
        "''CssSyntaxError''" "[]" "\<lparr>prop' = ''filter'', value' = ''blur(5px)''\<rparr>" "[]"]
      errors_only_from_parser [of sampleParse initialized
        "''.test { filter: blur(5px); margin: 1.75rem; }''" Classes
        "''CssSyntaxError''" "[]" "\<lparr>prop' = ''filter'', value' = ''blur(5px)''\<rparr>"
        "[\<lparr>prop' = ''margin'', value' = ''1.75rem''\<rparr>]"]
      sample_invalid sample_filter unmapped
    by (simp add: walk_margin walkDecls_Nil noBuckets_def)
qed

text \<open>
  C7 (amended). In the initialized table a declaration with the empty value still goes
  through resolution, and no entry matches it, since no value of the table is empty. It
  ends in the unsupported bucket exactly when its property is not listed in the table or
  has no abbreviation, as for \<open>display\<close>. For a listed property with an abbreviation,
  such as \<open>margin\<close>, the class \<open>abbreviation-[]\<close> is added, with its suggestion.
\<close>

theorem empty_value_resolution:
  "findBestUtilityMatch initialized p [] = None \<and>
   onDecl initialized b \<lparr>prop' = p, value' = []\<rparr> =
     (case map_of (cssPropertyMap initialized) p of
        None \<Rightarrow> b\<lparr>unsupported := unsupported b @ [p @ '': '']\<rparr>
      | Some us \<Rightarrow>
          (case map_of propertyAbbreviations p of
             None \<Rightarrow> b\<lparr>unsupported := unsupported b @ [p @ '': '']\<rparr>
           | Some a \<Rightarrow> b\<lparr>matchedClasses := matchedClasses b @ [a @ ''-[]''],
                          suggested := suggested b @
                            [''Consider using '' @ a @ ''-[] for '' @ p @ '': '']\<rparr>)) \<and>
   map_of (cssPropertyMap initialized) ''margin'' \<noteq> None \<and>
   map_of propertyAbbreviations ''margin'' = Some ''m'' \<and>
   map_of (cssPropertyMap initialized) ''display'' \<noteq> None \<and>
   map_of propertyAbbreviations ''display'' = None"
proof -
  have nofind: "find (\<lambda>e. uvalue e = []) (propertyEntries initialized p) = None"
    using initialized_entry [of _ p] by (auto simp: find_None_iff)
  then have best: "findBestUtilityMatch initialized p [] = None"
    by (simp add: findBestUtilityMatch_find)
  have step: "onDecl initialized b \<lparr>prop' = p, value' = []\<rparr> =
     (case map_of (cssPropertyMap initialized) p of
        None \<Rightarrow> b\<lparr>unsupported := unsupported b @ [p @ '': '']\<rparr>
      | Some us \<Rightarrow>
          (case map_of propertyAbbreviations p of
             None \<Rightarrow> b\<lparr>unsupported := unsupported b @ [p @ '': '']\<rparr>
           | Some a \<Rightarrow> b\<lparr>matchedClasses := matchedClasses b @ [a @ ''-[]''],
                          suggested := suggested b @
                            [''Consider using '' @ a @ ''-[] for '' @ p @ '': '']\<rparr>))"
  proof (cases "map_of (cssPropertyMap initialized) p")
    case None
    then show ?thesis using onDecl_unlisted [of initialized p b "[]"] by simp
  next
    case (Some us)
    then have "(p, us) \<in> set (cssPropertyMap initialized)" by (rule map_of_SomeD)
    then have p: "p \<in> {''margin'', ''padding'', ''width'', ''height'', ''display'', ''font-size''}" and "us \<noteq> []"
      by (auto simp: cssPropertyMap_initialized)
    have falsy: "\<not> truthy (findBestUtilityMatch initialized p [])" using best by simp
    note fb = onDecl_fallback [OF Some \<open>us \<noteq> []\<close> falsy, of b]
    show ?thesis
    proof (cases "map_of propertyAbbreviations p")
      case None
      with p have "p = ''display''" by (auto simp: propertyAbbreviations_def)
      then have "createArbitraryUtility p [] = None"
        by (simp add: createArbitraryUtility_def abbreviationOf_def propertyAbbreviations_def
            objectPrototypeMembers_def)
      with fb Some None show ?thesis by simp
    next
      case (Some a)
      from createArbitraryUtility_own [OF Some, of "[]"] fb \<open>map_of (cssPropertyMap initialized) p = Some us\<close> Some
      show ?thesis by simp
    qed
  qed
  show ?thesis using best step
    by (simp add: cssPropertyMap_initialized propertyAbbreviations_def)
qed

theorem empty_value_counterexample:
  "walkDecls initialized [\<lparr>prop' = ''margin'', value' = []\<rparr>] =
     \<lparr>matchedClasses = [''m-[]''], unsupported = [],
      suggested = [''Consider using m-[] for margin: '']\<rparr>"
  by (simp add: walkDecls_def noBuckets_def onDecl_def cssPropertyMap_initialized
      findBestUtilityMatch_find propertyEntries_initialized utilityMappings_def tableRow_def
      createArbitraryUtility_def abbreviationOf_def propertyAbbreviations_def)

text \<open>
  C8. A second call on the same text, in the state that the first call left, returns the
  result of the first call. The matched classes are the classes of the single
  declarations, at most one each, in the order of the declarations, and \<open>tailwindClasses\<close>
  joins them in this order.
\<close>

theorem same_result_same_order:
  "fst (convertCSSToTailwind parse (snd (convertCSSToTailwind parse s css mode)) css mode) =
     fst (convertCSSToTailwind parse s css mode) \<and>
   matchedClasses (walkDecls s ds) = concat (map (\<lambda>d. matchedClasses (walkDecls s [d])) ds) \<and>
   length (matchedClasses (walkDecls s [d])) \<le> 1 \<and>
   (parse css = Inr ds \<longrightarrow>
      (\<exists>r. fst (convertCSSToTailwind parse s css mode) = Inr r \<and>
           tailwindClasses r =
             join '' '' (concat (map (\<lambda>d. matchedClasses (walkDecls s [d])) ds))))"
proof -
  have one: "length (matchedClasses (walkDecls s [d])) \<le> 1"
    using onDecl_one_bucket [of s noBuckets d] by (auto simp: walkDecls_def noBuckets_def)
  show ?thesis
    using one matchedClasses_walkDecls [of s ds]
    by (simp add: convert_state) (simp add: convertCSSToTailwind_def assemble_def)
qed

theorem same_result_same_order_witness:
  "sampleParse ''.test { display: flex; padding: 1rem; }'' =
     Inr [\<lparr>prop' = ''display'', value' = ''flex''\<rparr>, \<lparr>prop' = ''padding'', value' = ''1rem''\<rparr>] \<and>
   (\<exists>r. fst (convertCSSToTailwind sampleParse initialized
              ''.test { display: flex; padding: 1rem; }'' Classes) = Inr r \<and>
        tailwindClasses r = ''flex p-4'') \<and>
   matchedClasses (walkDecls initialized [\<lparr>prop' = ''display'', value' = ''flex''\<rparr>]) = [''flex''] \<and>
   matchedClasses (walkDecls initialized [\<lparr>prop' = ''padding'', value' = ''1rem''\<rparr>]) = [''p-4'']"
proof -
  have single: "matchedClasses (walkDecls initialized [\<lparr>prop' = ''display'', value' = ''flex''\<rparr>]) = [''flex'']"
    "matchedClasses (walkDecls initialized [\<lparr>prop' = ''padding'', value' = ''1rem''\<rparr>]) = [''p-4'']"
    by (simp_all add: walkDecls_def noBuckets_def onDecl_def cssPropertyMap_initialized
      findBestUtilityMatch_find propertyEntries_initialized utilityMappings_def tableRow_def)
  show ?thesis
    using same_result_same_order [of sampleParse initialized
        "''.test { display: flex; padding: 1rem; }''" Classes
        "[\<lparr>prop' = ''display'', value' = ''flex''\<rparr>, \<lparr>prop' = ''padding'', value' = ''1rem''\<rparr>]"]
      sample_flex single
    by simp
qed

text \<open>
  C9. A declaration whose property has an abbreviation but is not listed in the property
  map of the table (or is listed with no class) is recorded as unsupported, in every
  table, although \<open>createArbitraryUtility\<close> would give a class for it. In the initialized
  table this is so for \<open>color\<close>, \<open>background-color\<close>, \<open>border-color\<close>, \<open>line-height\<close>,
  \<open>top\<close>, \<open>right\<close>, \<open>bottom\<close> and \<open>left\<close>.
\<close>

theorem fallback_needs_table_entries:
  assumes "map_of propertyAbbreviations p = Some a"
    and "map_of (cssPropertyMap s) p = None \<or> map_of (cssPropertyMap s) p = Some []"
  shows "onDecl s b \<lparr>prop' = p, value' = v\<rparr> = b\<lparr>unsupported := unsupported b @ [p @ '': '' @ v]\<rparr> \<and>
         createArbitraryUtility p v = Some (a @ ''-['' @ cleanValue v @ '']'')"
  using onDecl_unlisted [OF assms(2)] createArbitraryUtility_own [OF assms(1)] by simp

theorem fallback_needs_table_entries_witness:
  "list_all (\<lambda>q. map_of (cssPropertyMap initialized) q = None \<and> map_of propertyAbbreviations q \<noteq> None)
     [''color'', ''background-color'', ''border-color'', ''line-height'',
      ''top'', ''right'', ''bottom'', ''left''] \<and>
   walkDecls initialized [\<lparr>prop' = ''color'', value' = ''red''\<rparr>] =
     \<lparr>matchedClasses = [], unsupported = [''color: red''], suggested = []\<rparr> \<and>
   createArbitraryUtility ''color'' ''red'' = Some ''text-[red]'' \<and>
   walkDecls initialized [\<lparr>prop' = ''top'', value' = ''10px''\<rparr>] =
     \<lparr>matchedClasses = [], unsupported = [''top: 10px''], suggested = []\<rparr> \<and>
   createArbitraryUtility ''top'' ''10px'' = Some ''top-[10px]''"
proof -
  have color: "map_of propertyAbbreviations ''color'' = Some ''text''"
    and top: "map_of propertyAbbreviations ''top'' = Some ''top''"
    by (simp_all add: propertyAbbreviations_def)
  have no_color: "map_of (cssPropertyMap initialized) ''color'' = None \<or>
                  map_of (cssPropertyMap initialized) ''color'' = Some []"
    and no_top: "map_of (cssPropertyMap initialized) ''top'' = None \<or>
                 map_of (cssPropertyMap initialized) ''top'' = Some []"
    by (simp_all add: cssPropertyMap_initialized)
  have plain: "cleanValue ''red'' = ''red''" "cleanValue ''10px'' = ''10px''"
    by (simp_all add: isWhitespace_def)
  show ?thesis
    using fallback_needs_table_entries [OF color no_color, of noBuckets "''red''"]
      fallback_needs_table_entries [OF top no_top, of noBuckets "''10px''"]
      unlisted_initialized plain
    by (simp add: walkDecls_def noBuckets_def)
qed

text \<open>
  C10. A conversion call leaves the state of the service as it found it, whatever the
  text, the mode and the answer of the parser. So in a sequence of calls every call
  returns what it returns when it runs alone on the starting state, and the state after the
  sequence is the starting state.
\<close>

theorem conversion_keeps_table:
  "snd (convertCSSToTailwind parse s css mode) = s \<and>
   conversionCalls parse s reqs =
     (map (\<lambda>(css, mode). fst (convertCSSToTailwind parse s css mode)) reqs, s)"
proof
  show "snd (convertCSSToTailwind parse s css mode) = s" by (rule convert_state)
  show "conversionCalls parse s reqs =
     (map (\<lambda>(css, mode). fst (convertCSSToTailwind parse s css mode)) reqs, s)"
  proof (induction reqs)
    case Nil
    show ?case by simp
  next
    case (Cons req reqs)
    obtain css' mode' where req: "req = (css', mode')" by (cases req)
    obtain r where r: "convertCSSToTailwind parse s css' mode' = (r, s)"
      using convert_state [of parse s css' mode']
      by (cases "convertCSSToTailwind parse s css' mode'") simp
    show ?case using Cons.IH by (simp add: req r)
  qed
qed

end
